theory Spec2Isabelle
  imports Complex_Main
begin

section \<open>JavaScript values and exceptions\<close>

text \<open>
  The script \<^verbatim>\<open>js/script.js\<close> is a set of controllers that mutate DOM nodes and browser
  state. Each controller is embedded as functions on a record of the DOM/browser state it
  touches. A call that can raise returns an \<open>outcome\<close>: either it completes with the new
  state, or it throws, and then the mutations made before the throw are kept, as in
  JavaScript.
\<close>

datatype js_error = SecurityError | TypeError | SyntaxError | NotAllowedError

datatype 'a outcome = Done 'a | Threw js_error 'a

definition and_then :: "'a outcome \<Rightarrow> ('a \<Rightarrow> 'a outcome) \<Rightarrow> 'a outcome" where
  "and_then r f = (case r of Done s \<Rightarrow> f s | Threw e s \<Rightarrow> Threw e s)"

text \<open>JavaScript truthiness of a value that is \<^verbatim>\<open>null\<close>/\<^verbatim>\<open>undefined\<close> (\<open>None\<close>) or a string:
  only the non-empty string is truthy.\<close>

definition truthy :: "string option \<Rightarrow> bool" where
  "truthy v = (case v of None \<Rightarrow> False | Some str \<Rightarrow> str \<noteq> [])"

text \<open>\<^verbatim>\<open>el?.classList.add(c)\<close> and \<^verbatim>\<open>el?.classList.remove(c)\<close> on an element that may be
  \<^verbatim>\<open>null\<close>; an element is represented by its class list, a set of class names.\<close>

definition opt_add :: "string \<Rightarrow> string set option \<Rightarrow> string set option" where
  "opt_add c el = (case el of None \<Rightarrow> None | Some cs \<Rightarrow> Some (insert c cs))"

definition opt_remove :: "string \<Rightarrow> string set option \<Rightarrow> string set option" where
  "opt_remove c el = (case el of None \<Rightarrow> None | Some cs \<Rightarrow> Some (cs - {c}))"

definition has_class :: "string \<Rightarrow> string set option \<Rightarrow> bool" where
  "has_class c el = (case el of None \<Rightarrow> False | Some cs \<Rightarrow> c \<in> cs)"

section \<open>ThemeManager\<close>

text \<open>
  The state ThemeManager reads and writes: the class list of \<^verbatim>\<open>document.documentElement\<close>,
  the three selector buttons (\<open>None\<close> when \<^verbatim>\<open>getElementById\<close> returned \<^verbatim>\<open>null\<close>), and
  \<^verbatim>\<open>localStorage\<close>. The storage is \<open>None\<close> in an environment where local persistent storage
  is unavailable: there, evaluating \<^verbatim>\<open>localStorage\<close> raises a \<^verbatim>\<open>SecurityError\<close>.
\<close>

record theme_state =
  html_classes :: "string set"
  lightBtn :: "string set option"
  darkBtn :: "string set option"
  autoBtn :: "string set option"
  localStorage :: "(string \<rightharpoonup> string) option"

definition getItem :: "string \<Rightarrow> theme_state \<Rightarrow> js_error + string option" where
  "getItem k s = (case localStorage s of None \<Rightarrow> Inl SecurityError | Some m \<Rightarrow> Inr (m k))"

definition setItem :: "string \<Rightarrow> string \<Rightarrow> theme_state \<Rightarrow> theme_state outcome" where
  "setItem k v s =
     (case localStorage s of
        None \<Rightarrow> Threw SecurityError s
      | Some m \<Rightarrow> Done (s\<lparr>localStorage := Some (m(k \<mapsto> v))\<rparr>))"

definition updateActiveButton :: "theme_state \<Rightarrow> theme_state outcome" where
  "updateActiveButton s =
     (case getItem ''theme'' s of
        Inl e \<Rightarrow> Threw e s
      | Inr v \<Rightarrow>
          (let currentTheme = (if truthy v then the v else ''auto'');
               s1 = s\<lparr>lightBtn := opt_remove ''active'' (lightBtn s)\<rparr>;
               s2 = s1\<lparr>darkBtn := opt_remove ''active'' (darkBtn s1)\<rparr>;
               s3 = s2\<lparr>autoBtn := opt_remove ''active'' (autoBtn s2)\<rparr>
           in if currentTheme = ''theme-light''
                then Done (s3\<lparr>lightBtn := opt_add ''active'' (lightBtn s3)\<rparr>)
              else if currentTheme = ''theme-dark''
                then Done (s3\<lparr>darkBtn := opt_add ''active'' (darkBtn s3)\<rparr>)
              else Done (s3\<lparr>autoBtn := opt_add ''active'' (autoBtn s3)\<rparr>)))"

definition setLightTheme :: "theme_state \<Rightarrow> theme_state outcome" where
  "setLightTheme s =
     (let s1 = s\<lparr>html_classes := html_classes s - {''theme-dark''}\<rparr>;
          s2 = s1\<lparr>html_classes := insert ''theme-light'' (html_classes s1)\<rparr>
      in and_then (setItem ''theme'' ''theme-light'' s2) updateActiveButton)"

definition setDarkTheme :: "theme_state \<Rightarrow> theme_state outcome" where
  "setDarkTheme s =
     (let s1 = s\<lparr>html_classes := html_classes s - {''theme-light''}\<rparr>;
          s2 = s1\<lparr>html_classes := insert ''theme-dark'' (html_classes s1)\<rparr>
      in and_then (setItem ''theme'' ''theme-dark'' s2) updateActiveButton)"

definition setAutoTheme :: "theme_state \<Rightarrow> theme_state outcome" where
  "setAutoTheme s =
     (let s1 = s\<lparr>html_classes := html_classes s - {''theme-light'', ''theme-dark''}\<rparr>
      in and_then (setItem ''theme'' ''auto'' s1) updateActiveButton)"

text \<open>\<^verbatim>\<open>loadTheme\<close> also reads \<^verbatim>\<open>window.matchMedia('(prefers-color-scheme: dark)').matches\<close>
  into \<^verbatim>\<open>systemPrefersDark\<close>, which it never uses.\<close>

definition loadTheme :: "theme_state \<Rightarrow> theme_state outcome" where
  "loadTheme s =
     (case getItem ''theme'' s of
        Inl e \<Rightarrow> Threw e s
      | Inr savedTheme \<Rightarrow>
          if savedTheme = Some ''theme-light'' then setLightTheme s
          else if savedTheme = Some ''theme-dark'' then setDarkTheme s
          else setAutoTheme s)"

text \<open>The listener that \<^verbatim>\<open>bindEvents\<close> registers on the OS colour-scheme media query;
  \<open>matches\<close> is \<^verbatim>\<open>e.matches\<close>.\<close>

definition colorSchemeChange :: "bool \<Rightarrow> theme_state \<Rightarrow> theme_state outcome" where
  "colorSchemeChange matches s =
     (case getItem ''theme'' s of
        Inl e \<Rightarrow> Threw e s
      | Inr currentTheme \<Rightarrow>
          if \<not> truthy currentTheme \<or> currentTheme = Some ''auto''
            then (if matches
                    then Done (s\<lparr>html_classes := insert ''theme-dark'' (html_classes s)\<rparr>)
                    else Done (s\<lparr>html_classes := html_classes s - {''theme-dark''}\<rparr>))
          else Done s)"

text \<open>\<^verbatim>\<open>ThemeManager.init\<close>: \<^verbatim>\<open>loadTheme\<close>, then \<^verbatim>\<open>bindEvents\<close> (which only registers the
  handlers, each of them an operation of \<open>theme_op\<close> below), then \<^verbatim>\<open>updateActiveButton\<close>.\<close>

definition ThemeManager_init :: "theme_state \<Rightarrow> theme_state outcome" where
  "ThemeManager_init s = and_then (loadTheme s) updateActiveButton"



text \<open>Running a sequence of operations; each operation is its own event-loop task, so an
  exception in one of them ends that handler only and the next one still runs on the state
  left behind.\<close>

definition state_of :: "'a outcome \<Rightarrow> 'a" where
  "state_of r = (case r of Done s \<Rightarrow> s | Threw e s \<Rightarrow> s)"


text \<open>The stored preference: the value kept under the key \<^verbatim>\<open>theme\<close>, if there is one.\<close>

definition stored_pref :: "theme_state \<Rightarrow> string option" where
  "stored_pref s = (case localStorage s of None \<Rightarrow> None | Some m \<Rightarrow> m ''theme'')"

definition example_page :: theme_state where
  "example_page =
     \<lparr>html_classes = {''no-js''}, lightBtn = Some {''btn''}, darkBtn = Some {''btn'', ''active''},
      autoBtn = Some {''btn''}, localStorage = Some Map.empty\<rparr>"

definition reloaded_dark_page :: theme_state where
  "reloaded_dark_page =
     \<lparr>html_classes = {''no-js'', ''theme-dark''}, lightBtn = Some {''btn''},
      darkBtn = Some {''btn''}, autoBtn = Some {''btn'', ''active''},
      localStorage = Some [''theme'' \<mapsto> ''theme-light'']\<rparr>"

definition blocked_page :: theme_state where
  "blocked_page =
     \<lparr>html_classes = {''theme-dark''}, lightBtn = Some {''btn''}, darkBtn = Some {''btn''},
      autoBtn = Some {''btn''}, localStorage = None\<rparr>"




section \<open>MobileMenu\<close>

text \<open>
  The state MobileMenu touches once \<^verbatim>\<open>init\<close> has found the toggle button (when the button
  is absent \<^verbatim>\<open>init\<close> returns before binding any listener, and no handler ever runs): the
  class list of the document root, the class list of the button, and the button's
  \<^verbatim>\<open>aria-expanded\<close> attribute, \<open>None\<close> while the attribute is not set.
\<close>

record menu_state =
  root_classes :: "string set"
  navBtn_classes :: "string set"
  aria_expanded :: "string option"

text \<open>\<^verbatim>\<open>classList.toggle(c)\<close>, and the string a boolean becomes in \<^verbatim>\<open>setAttribute\<close>.\<close>

definition classList_toggle :: "string \<Rightarrow> string set \<Rightarrow> string set" where
  "classList_toggle c cs = (if c \<in> cs then cs - {c} else insert c cs)"

definition bool_string :: "bool \<Rightarrow> string" where
  "bool_string b = (if b then ''true'' else ''false'')"

definition MobileMenu_toggle :: "menu_state \<Rightarrow> menu_state" where
  "MobileMenu_toggle s =
     (let s1 = s\<lparr>root_classes := classList_toggle ''show-mobile-nav'' (root_classes s)\<rparr>;
          s2 = s1\<lparr>navBtn_classes := classList_toggle ''active'' (navBtn_classes s1)\<rparr>;
          isExpanded = (''show-mobile-nav'' \<in> root_classes s2)
      in s2\<lparr>aria_expanded := Some (bool_string isExpanded)\<rparr>)"

definition MobileMenu_open :: "menu_state \<Rightarrow> menu_state" where
  "MobileMenu_open s =
     s\<lparr>root_classes := insert ''show-mobile-nav'' (root_classes s),
       navBtn_classes := insert ''active'' (navBtn_classes s),
       aria_expanded := Some ''true''\<rparr>"

definition MobileMenu_close :: "menu_state \<Rightarrow> menu_state" where
  "MobileMenu_close s =
     s\<lparr>root_classes := root_classes s - {''show-mobile-nav''},
       navBtn_classes := navBtn_classes s - {''active''},
       aria_expanded := Some ''false''\<rparr>"

text \<open>
  The listeners of \<^verbatim>\<open>MobileMenu.bindEvents\<close>, one function each. The keydown listener of
  the button also returns whether it called \<^verbatim>\<open>preventDefault\<close>.
\<close>

definition navBtn_click :: "menu_state \<Rightarrow> menu_state" where
  "navBtn_click s = MobileMenu_toggle s"

definition navBtn_keydown :: "string \<Rightarrow> menu_state \<Rightarrow> menu_state \<times> bool" where
  "navBtn_keydown k s =
     (if k = ''Enter'' \<or> k = '' '' then (MobileMenu_toggle s, True) else (s, False))"

definition navList_click :: "string \<Rightarrow> menu_state \<Rightarrow> menu_state" where
  "navList_click tagName s =
     (if tagName = ''A'' \<and> ''show-mobile-nav'' \<in> root_classes s then MobileMenu_close s else s)"

definition document_keydown :: "string \<Rightarrow> menu_state \<Rightarrow> menu_state" where
  "document_keydown k s =
     (if k = ''Escape'' \<and> ''show-mobile-nav'' \<in> root_classes s then MobileMenu_close s else s)"

text \<open>
  Event dispatch. MobileMenu has listeners on three nodes: the button, the navigation list
  and the document. A bubbling event is given by the listener-bearing nodes on its
  propagation path, innermost first; every path ends at the document. A click that is
  outside the navigation passes neither the button nor the list. MobileMenu registers no
  click listener on the document.
\<close>

datatype listener_node = NavBtn | NavList | Document

fun click_listener :: "string \<Rightarrow> listener_node \<Rightarrow> menu_state \<Rightarrow> menu_state" where
  "click_listener tagName NavBtn s = navBtn_click s"
| "click_listener tagName NavList s = navList_click tagName s"
| "click_listener tagName Document s = s"

definition dispatch_click :: "string \<Rightarrow> listener_node list \<Rightarrow> menu_state \<Rightarrow> menu_state" where
  "dispatch_click tagName nodes s = fold (click_listener tagName) nodes s"

fun keydown_listener :: "string \<Rightarrow> listener_node \<Rightarrow> menu_state \<Rightarrow> menu_state" where
  "keydown_listener k NavBtn s = fst (navBtn_keydown k s)"
| "keydown_listener k NavList s = s"
| "keydown_listener k Document s = document_keydown k s"

definition dispatch_keydown :: "string \<Rightarrow> listener_node list \<Rightarrow> menu_state \<Rightarrow> menu_state" where
  "dispatch_keydown k nodes s = fold (keydown_listener k) nodes s"

definition outside_navigation :: "listener_node list \<Rightarrow> bool" where
  "outside_navigation nodes \<longleftrightarrow> NavBtn \<notin> set nodes \<and> NavList \<notin> set nodes"

definition menu_closed :: "menu_state \<Rightarrow> bool" where
  "menu_closed s \<longleftrightarrow>
     ''show-mobile-nav'' \<notin> root_classes s \<and> aria_expanded s = Some ''false''"

definition aria_mirrors :: "menu_state \<Rightarrow> bool" where
  "aria_mirrors s \<longleftrightarrow>
     aria_expanded s = Some (bool_string (''show-mobile-nav'' \<in> root_classes s))"

definition open_menu_page :: menu_state where
  "open_menu_page =
     \<lparr>root_classes = {''theme-dark'', ''show-mobile-nav''}, navBtn_classes = {''navbar-btn'', ''active''},
      aria_expanded = Some ''true''\<rparr>"

definition fresh_menu_page :: menu_state where
  "fresh_menu_page =
     \<lparr>root_classes = {}, navBtn_classes = {''navbar-btn''}, aria_expanded = None\<rparr>"

section \<open>BackToTop\<close>

text \<open>The three scroll positions \<^verbatim>\<open>getScrollTop\<close> reads; \<^verbatim>\<open>a || b\<close> takes \<open>b\<close> when \<open>a\<close> is
  zero.\<close>

record scroll_position =
  pageYOffset :: real
  documentElement_scrollTop :: real
  body_scrollTop :: real

definition getScrollTop :: "scroll_position \<Rightarrow> real" where
  "getScrollTop w =
     (if pageYOffset w \<noteq> 0 then pageYOffset w
      else if documentElement_scrollTop w \<noteq> 0 then documentElement_scrollTop w
      else if body_scrollTop w \<noteq> 0 then body_scrollTop w
      else 0)"

definition showThreshold :: real where
  "showThreshold = 300"

text \<open>\<^verbatim>\<open>checkVisibility\<close> on the class list of the control, and \<^verbatim>\<open>init\<close>, which does nothing
  when the control is absent.\<close>

definition checkVisibility :: "scroll_position \<Rightarrow> string set \<Rightarrow> string set" where
  "checkVisibility w btn =
     (if getScrollTop w \<ge> showThreshold then insert ''show'' btn else btn - {''show''})"

definition BackToTop_init :: "scroll_position \<Rightarrow> string set option \<Rightarrow> string set option" where
  "BackToTop_init w btn = (case btn of None \<Rightarrow> None | Some cs \<Rightarrow> Some (checkVisibility w cs))"

section \<open>Names and URLs in CSS\<close>

text \<open>
  Two browser facilities the script relies on read a string built from page content as
  CSS: \<^verbatim>\<open>document.querySelector\<close> in SmoothScroll and the setter of
  \<^verbatim>\<open>style.backgroundImage\<close> in LazyLoader. The character classes below delimit the
  strings on which their answer is modelled outright; on every other string the answer of
  the browser is a parameter of the page.
\<close>

definition name_start :: "char \<Rightarrow> bool" where
  "name_start c \<longleftrightarrow> c \<in> set ''abcdefghijklmnopqrstuvwxyzABCDEFGHIJKLMNOPQRSTUVWXYZ_''"

definition digit :: "char \<Rightarrow> bool" where
  "digit c \<longleftrightarrow> c \<in> set ''0123456789''"

definition name_char :: "char \<Rightarrow> bool" where
  "name_char c \<longleftrightarrow> name_start c \<or> digit c \<or> c = CHR ''-''"

text \<open>A plain name: a letter or underscore, then letters, digits, hyphens and underscores.
  Every plain name is a CSS identifier.\<close>

definition plain_name :: "string \<Rightarrow> bool" where
  "plain_name n \<longleftrightarrow> (case n of [] \<Rightarrow> False | c # cs \<Rightarrow> name_start c \<and> list_all name_char cs)"

definition url_char :: "char \<Rightarrow> bool" where
  "url_char c \<longleftrightarrow> name_char c \<or> c \<in> set ''.~:/?#@!$&*+,;=%''"

text \<open>CSS white space (space, tab, line feed, form feed, carriage return), and the
  characters that end an unquoted \<^verbatim>\<open>url(\<close> token as a bad URL: white space before more
  text, a double or single quote, an opening parenthesis.\<close>

definition css_space :: "char \<Rightarrow> bool" where
  "css_space c \<longleftrightarrow> c \<in> {CHR 0x20, CHR 0x09, CHR 0x0A, CHR 0x0C, CHR 0x0D}"

definition url_breaker :: "char \<Rightarrow> bool" where
  "url_breaker c \<longleftrightarrow> css_space c \<or> c \<in> {CHR 0x22, CHR 0x27, CHR 0x28}"

text \<open>
  \<open>plain_url u\<close>: \<open>u\<close> is made of URL characters only, so \<^verbatim>\<open>url(u)\<close> is one URL token and a
  valid background image. \<open>broken_url u\<close>: \<open>u\<close> begins and ends with a URL character and
  has, between URL characters, at least one breaker (and no closing parenthesis and no
  backslash, which are neither); the tokenizer then yields a bad-URL token and the
  declaration is dropped.
\<close>

definition plain_url :: "string \<Rightarrow> bool" where
  "plain_url u \<longleftrightarrow> u \<noteq> [] \<and> list_all url_char u"

definition broken_url :: "string \<Rightarrow> bool" where
  "broken_url u \<longleftrightarrow>
     u \<noteq> [] \<and> url_char (hd u) \<and> url_char (last u) \<and>
     list_all (\<lambda>c. url_char c \<or> url_breaker c) u \<and> \<not> list_all url_char u"

section \<open>LazyLoader\<close>

text \<open>
  An element of the document, as far as LazyLoader looks at it: whether it carries the
  attribute \<^verbatim>\<open>background-image-lazy\<close>, its \<^verbatim>\<open>dataset.img\<close>, the background image of its
  inline style (\<open>None\<close> when the style has none), and its class list. The document is the
  list of its elements in document order, an element is named by its position. The
  browser state holds the callbacks passed to \<^verbatim>\<open>requestAnimationFrame\<close> and not yet run
  (each one the closure of \<^verbatim>\<open>loadImage\<close> over \<^verbatim>\<open>element\<close> and \<^verbatim>\<open>imgUrl\<close>), the elements under
  observation, and \<open>parse_background\<close>: what the CSS parser of the browser makes of a text
  assigned to \<^verbatim>\<open>style.backgroundImage\<close> that is outside the two classes above, \<open>None\<close> when
  it drops the text.
\<close>

datatype background = Url string | Parsed string

record element =
  lazy_marker :: bool
  data_img :: "string option"
  backgroundImage :: "background option"
  classList :: "string set"

record lazy_state =
  elements :: "element list"
  frame_callbacks :: "(nat \<times> string) list"
  observed :: "nat set"
  parse_background :: "string \<Rightarrow> background option"

definition querySelectorAll_lazy :: "element list \<Rightarrow> nat list" where
  "querySelectorAll_lazy els = filter (\<lambda>i. lazy_marker (els ! i)) [0..<length els]"

definition loadImage :: "nat \<Rightarrow> lazy_state \<Rightarrow> lazy_state" where
  "loadImage i s =
     (let imgUrl = data_img (elements s ! i)
      in if \<not> truthy imgUrl then s
         else s\<lparr>frame_callbacks := frame_callbacks s @ [(i, the imgUrl)]\<rparr>)"

definition loadAllImages :: "lazy_state \<Rightarrow> lazy_state" where
  "loadAllImages s = fold loadImage (querySelectorAll_lazy (elements s)) s"

definition observeImages :: "lazy_state \<Rightarrow> lazy_state" where
  "observeImages s =
     (let lazyImages = querySelectorAll_lazy (elements s)
      in if length lazyImages = 0 then s
         else fold (\<lambda>img st. st\<lparr>observed := insert img (observed st)\<rparr>) lazyImages s)"

text \<open>\<open>hasIntersectionObserver\<close> is \<^verbatim>\<open>'IntersectionObserver' in window\<close>.\<close>

definition LazyLoader_init :: "bool \<Rightarrow> lazy_state \<Rightarrow> lazy_state" where
  "LazyLoader_init hasIntersectionObserver s =
     (if \<not> hasIntersectionObserver then loadAllImages s else observeImages s)"

text \<open>
  The assignment \<^verbatim>\<open>element.style.backgroundImage = `url(${imgUrl})`\<close>. The style setter
  parses the text as CSS: a text that is no background image is dropped and the style
  stays as it was.
\<close>

definition set_backgroundImage ::
  "(string \<Rightarrow> background option) \<Rightarrow> string \<Rightarrow> element \<Rightarrow> element" where
  "set_backgroundImage parse imgUrl e =
     (if plain_url imgUrl then e\<lparr>backgroundImage := Some (Url imgUrl)\<rparr>
      else if broken_url imgUrl then e
      else (case parse (''url('' @ imgUrl @ '')'') of
              None \<Rightarrow> e
            | Some v \<Rightarrow> e\<lparr>backgroundImage := Some v\<rparr>))"

text \<open>The body of the animation-frame callback, and the next animation frame, which runs
  the pending callbacks in the order they were requested.\<close>

definition mark_loaded :: "(string \<Rightarrow> background option) \<Rightarrow> string \<Rightarrow> element \<Rightarrow> element" where
  "mark_loaded parse imgUrl e =
     (let e1 = set_backgroundImage parse imgUrl e
      in e1\<lparr>classList := insert ''loaded'' (classList e1)\<rparr>)"

fun run_frame_callback ::
  "(string \<Rightarrow> background option) \<Rightarrow> nat \<times> string \<Rightarrow> element list \<Rightarrow> element list" where
  "run_frame_callback parse (i, imgUrl) els = els[i := mark_loaded parse imgUrl (els ! i)]"

definition animation_frame :: "lazy_state \<Rightarrow> lazy_state" where
  "animation_frame s =
     s\<lparr>elements := fold (run_frame_callback (parse_background s)) (frame_callbacks s) (elements s),
       frame_callbacks := []\<rparr>"

definition is_loaded :: "element \<Rightarrow> bool" where
  "is_loaded e \<longleftrightarrow> backgroundImage e \<noteq> None \<and> ''loaded'' \<in> classList e"

definition gallery_page :: lazy_state where
  "gallery_page =
     \<lparr>elements =
        [\<lparr>lazy_marker = True, data_img = Some ''/img/a.jpg'', backgroundImage = None, classList = {''cover''}\<rparr>,
         \<lparr>lazy_marker = True, data_img = None, backgroundImage = None, classList = {''cover''}\<rparr>,
         \<lparr>lazy_marker = False, data_img = Some ''/img/c.jpg'', backgroundImage = None, classList = {}\<rparr>,
         \<lparr>lazy_marker = True, data_img = Some ''my photo.jpg'', backgroundImage = None, classList = {''cover''}\<rparr>],
      frame_callbacks = [], observed = {}, parse_background = (\<lambda>text. None)\<rparr>"

section \<open>SmoothScroll\<close>

text \<open>
  A click is given by its target and the target's ancestors, innermost first, each with its
  local name and its \<^verbatim>\<open>href\<close> attribute. The type selector \<^verbatim>\<open>a\<close> matches the elements whose
  local name is \<^verbatim>\<open>a\<close>, an HTML anchor as well as an SVG one, so
  \<^verbatim>\<open>e.target.closest('a[href^="#"]')\<close> is the first of the nodes with local name \<^verbatim>\<open>a\<close> whose
  \<^verbatim>\<open>href\<close> starts with \<^verbatim>\<open>#\<close>; the handler then reads that \<^verbatim>\<open>href\<close>.
\<close>

record dom_node =
  localName :: string
  href :: "string option"

definition is_hash_anchor :: "dom_node \<Rightarrow> bool" where
  "is_hash_anchor n \<longleftrightarrow>
     localName n = ''a'' \<and> (case href n of None \<Rightarrow> False | Some h \<Rightarrow> take 1 h = ''#'')"

definition closest_hash_anchor :: "dom_node list \<Rightarrow> dom_node option" where
  "closest_hash_anchor nodes = find is_hash_anchor nodes"

text \<open>
  The page the handler reads: its elements in document order, each with its \<^verbatim>\<open>id\<close>, its
  classes and its \<^verbatim>\<open>getBoundingClientRect().top\<close>; the \<^verbatim>\<open>offsetHeight\<close> of the navbar, when
  there is one; and \<^verbatim>\<open>window.pageYOffset\<close>.

  \<^verbatim>\<open>document.querySelector(sel)\<close> throws a \<^verbatim>\<open>SyntaxError\<close> when \<open>sel\<close> is not a valid
  selector, returns \<^verbatim>\<open>null\<close> when no element matches, and otherwise returns the first
  matching element. It is modelled outright (for a document in standards mode) on the
  selectors an \<^verbatim>\<open>href\<close> of the form \<^verbatim>\<open>#name\<close> or \<^verbatim>\<open>#name.name...\<close> with plain names gives: an
  ID selector followed by class selectors, which matches an element with that \<^verbatim>\<open>id\<close> and all
  those classes. The empty string, \<^verbatim>\<open>#\<close> alone, and \<^verbatim>\<open>#\<close> followed by a digit are not
  selectors. On every other string the answer is the parameter \<open>other_selector\<close> of the
  page.
\<close>

record page_element =
  element_id :: "string option"
  element_classes :: "string set"
  rect_top :: real

datatype query_result = InvalidSelector | NoMatch | Match real

record scroll_page =
  page_elements :: "page_element list"
  other_selector :: "string \<Rightarrow> query_result"
  navbar_offsetHeight :: "real option"
  window_pageYOffset :: real

fun split_dots :: "string \<Rightarrow> string list" where
  "split_dots [] = [[]]"
| "split_dots (c # cs) =
     (if c = CHR ''.'' then [] # split_dots cs
      else (case split_dots cs of [] \<Rightarrow> [[c]] | p # ps \<Rightarrow> (c # p) # ps))"

definition querySelector :: "scroll_page \<Rightarrow> string \<Rightarrow> query_result" where
  "querySelector page sel =
     (case sel of
        [] \<Rightarrow> InvalidSelector
      | c # rest \<Rightarrow>
          if c \<noteq> CHR ''#'' then other_selector page sel
          else (case rest of
                  [] \<Rightarrow> InvalidSelector
                | d # _ \<Rightarrow>
                    if digit d then InvalidSelector
                    else (case split_dots rest of
                            [] \<Rightarrow> other_selector page sel
                          | n # classes \<Rightarrow>
                              if plain_name n \<and> list_all plain_name classes
                              then (case find (\<lambda>e. element_id e = Some n \<and>
                                                 list_all (\<lambda>c. c \<in> element_classes e) classes)
                                           (page_elements page) of
                                      None \<Rightarrow> NoMatch
                                    | Some e \<Rightarrow> Match (rect_top e))
                              else other_selector page sel)))"


text \<open>What the handler changes: whether \<^verbatim>\<open>preventDefault\<close> was called on the event, the
  \<^verbatim>\<open>window.scrollTo\<close> requests, and the URLs given to \<^verbatim>\<open>history.pushState\<close>.\<close>

record scroll_state =
  defaultPrevented :: bool
  scrollTo_requests :: "real list"
  pushState_urls :: "string list"

definition SmoothScroll_click ::
  "scroll_page \<Rightarrow> dom_node list \<Rightarrow> scroll_state \<Rightarrow> scroll_state outcome" where
  "SmoothScroll_click page nodes s =
     (case closest_hash_anchor nodes of
        None \<Rightarrow> Done s
      | Some link \<Rightarrow>
          (case href link of
             None \<Rightarrow> Done s
           | Some targetId \<Rightarrow>
               if targetId = ''#'' then Done s
               else (case querySelector page targetId of
                       InvalidSelector \<Rightarrow> Threw SyntaxError s
                     | NoMatch \<Rightarrow> Done s
                     | Match target_top \<Rightarrow>
                         (let s1 = s\<lparr>defaultPrevented := True\<rparr>;
                              navbarHeight =
                                (case navbar_offsetHeight page of None \<Rightarrow> 0 | Some h \<Rightarrow> h);
                              targetPosition =
                                target_top + window_pageYOffset page - navbarHeight - 20;
                              s2 = s1\<lparr>scrollTo_requests := scrollTo_requests s1 @ [targetPosition]\<rparr>
                          in Done (s2\<lparr>pushState_urls := pushState_urls s2 @ [targetId]\<rparr>)))))"




section \<open>CodeCopy\<close>

text \<open>
  The button that \<^verbatim>\<open>addCopyButton\<close> creates, with the browser state its click handler
  touches: the label, the class list, the calls of \<^verbatim>\<open>console.error\<close>, the pending
  \<^verbatim>\<open>setTimeout\<close> callbacks with their due times, and the clock, in milliseconds. The two
  timer callbacks of the handler are the closures \<open>RevertCopied\<close> and \<open>RevertFailed\<close>. The
  text handed to the clipboard leaves no trace in this state and is not represented.
\<close>

datatype timer_callback = RevertCopied | RevertFailed

record copy_button =
  textContent :: string
  button_classes :: "string set"
  console_errors :: "js_error list"
  timers :: "(nat \<times> timer_callback) list"
  clock :: nat

definition new_copy_button :: "nat \<Rightarrow> copy_button" where
  "new_copy_button t =
     \<lparr>textContent = ''Copy'', button_classes = {''copy-btn''}, console_errors = [], timers = [],
      clock = t\<rparr>"

text \<open>\<^verbatim>\<open>await navigator.clipboard.writeText(code)\<close>: it completes, or it raises inside the
  \<^verbatim>\<open>try\<close> block, either because the promise rejects or because \<^verbatim>\<open>navigator.clipboard\<close> is
  undefined.\<close>

datatype write_result = Fulfilled | Rejected js_error

definition writeText :: "write_result \<Rightarrow> copy_button \<Rightarrow> copy_button outcome" where
  "writeText w b = (case w of Fulfilled \<Rightarrow> Done b | Rejected err \<Rightarrow> Threw err b)"

definition try_catch :: "'a outcome \<Rightarrow> (js_error \<Rightarrow> 'a \<Rightarrow> 'a outcome) \<Rightarrow> 'a outcome" where
  "try_catch r handler = (case r of Done s \<Rightarrow> Done s | Threw e s \<Rightarrow> handler e s)"

definition setTimeout :: "timer_callback \<Rightarrow> nat \<Rightarrow> copy_button \<Rightarrow> copy_button" where
  "setTimeout cb delay b = b\<lparr>timers := timers b @ [(clock b + delay, cb)]\<rparr>"

text \<open>The click handler, from the moment the clipboard write settles.\<close>

definition copy_click :: "write_result \<Rightarrow> copy_button \<Rightarrow> copy_button outcome" where
  "copy_click w b =
     try_catch
       (and_then (writeText w b)
          (\<lambda>b1. let b2 = b1\<lparr>textContent := ''Copied!''\<rparr>;
                    b3 = b2\<lparr>button_classes := insert ''copied'' (button_classes b2)\<rparr>
                in Done (setTimeout RevertCopied 2000 b3)))
       (\<lambda>err b1. let b2 = b1\<lparr>console_errors := console_errors b1 @ [err]\<rparr>;
                     b3 = b2\<lparr>textContent := ''Failed''\<rparr>
                 in Done (setTimeout RevertFailed 2000 b3))"

fun run_timer :: "nat \<times> timer_callback \<Rightarrow> copy_button \<Rightarrow> copy_button" where
  "run_timer (due, RevertCopied) b =
     b\<lparr>textContent := ''Copy'', button_classes := button_classes b - {''copied''}\<rparr>"
| "run_timer (due, RevertFailed) b = b\<lparr>textContent := ''Copy''\<rparr>"

text \<open>
  The clock reaches \<open>t\<close>: the timers due by then fire, earliest first. Every timer of the
  handler has the same delay, so the pending list is in order of due time.
\<close>

definition advance_to :: "nat \<Rightarrow> copy_button \<Rightarrow> copy_button" where
  "advance_to t b =
     fold run_timer (filter (\<lambda>tm. fst tm \<le> t) (timers b))
       (b\<lparr>timers := filter (\<lambda>tm. \<not> fst tm \<le> t) (timers b), clock := max (clock b) t\<rparr>)"

text \<open>
  What happens to a button over time: the clock reaches a time, or a click on the button has
  its clipboard write settle. \<open>before d e\<close> says that the event \<open>e\<close> does not take the clock
  to \<open>d\<close> or beyond.
\<close>

datatype copy_event = Tick nat | Click write_result

fun copy_step :: "copy_event \<Rightarrow> copy_button \<Rightarrow> copy_button" where
  "copy_step (Tick t) b = advance_to t b"
| "copy_step (Click w) b = state_of (copy_click w b)"

definition copy_run :: "copy_event list \<Rightarrow> copy_button \<Rightarrow> copy_button" where
  "copy_run evs b = fold copy_step evs b"

fun before :: "nat \<Rightarrow> copy_event \<Rightarrow> bool" where
  "before d (Tick t) \<longleftrightarrow> t < d"
| "before d (Click w) \<longleftrightarrow> True"

text \<open>A button on which the clipboard write was rejected at time 0 and again at time 1500.\<close>

definition rejected_once :: copy_button where
  "rejected_once = state_of (copy_click (Rejected NotAllowedError) (new_copy_button 0))"

definition rejected_twice :: copy_button where
  "rejected_twice =
     state_of (copy_click (Rejected NotAllowedError) (advance_to 1500 rejected_once))"

section \<open>Properties of ThemeManager\<close>
















lemmas theme_eval =
  ThemeManager_init_def loadTheme_def setLightTheme_def setDarkTheme_def setAutoTheme_def
  colorSchemeChange_def updateActiveButton_def getItem_def setItem_def and_then_def state_of_def
  stored_pref_def truthy_def opt_add_def opt_remove_def has_class_def Let_def



text \<open>
  Claim C4, as the code has it. Where local storage is unavailable no ThemeManager operation
  is a silent no-op: each of them raises the storage error. \<^verbatim>\<open>loadTheme\<close>,
  \<^verbatim>\<open>updateActiveButton\<close> and the OS listener raise before changing anything; each setter
  raises after it has changed the classes of the document root, before persisting anything
  or refreshing the buttons.
\<close>

theorem storage_unavailable_raises:
  assumes "localStorage s = None"
  shows "loadTheme s = Threw SecurityError s \<and>
         updateActiveButton s = Threw SecurityError s \<and>
         colorSchemeChange b s = Threw SecurityError s \<and>
         setLightTheme s =
           Threw SecurityError
             (s\<lparr>html_classes := insert ''theme-light'' (html_classes s - {''theme-dark''})\<rparr>) \<and>
         setDarkTheme s =
           Threw SecurityError
             (s\<lparr>html_classes := insert ''theme-dark'' (html_classes s - {''theme-light''})\<rparr>) \<and>
         setAutoTheme s =
           Threw SecurityError
             (s\<lparr>html_classes := html_classes s - {''theme-light'', ''theme-dark''}\<rparr>)"
  using assms
  by (simp add: loadTheme_def updateActiveButton_def colorSchemeChange_def setLightTheme_def
      setDarkTheme_def setAutoTheme_def getItem_def setItem_def and_then_def Let_def)

theorem storage_unavailable_raises_witness:
  "localStorage blocked_page = None \<and>
   loadTheme blocked_page = Threw SecurityError blocked_page \<and>
   updateActiveButton blocked_page = Threw SecurityError blocked_page \<and>
   setAutoTheme blocked_page = Threw SecurityError (blocked_page\<lparr>html_classes := {}\<rparr>)"
  using storage_unavailable_raises [of blocked_page True]
  by (simp add: blocked_page_def)

text \<open>
  Claim C4 as stated fails: on a page whose storage is unavailable, \<^verbatim>\<open>setLightTheme\<close> raises,
  and it is no no-op either, the root class has changed from \<^verbatim>\<open>theme-dark\<close> to \<^verbatim>\<open>theme-light\<close>.
\<close>

theorem setLightTheme_blocked_raises:
  "localStorage blocked_page = None \<and>
   setLightTheme blocked_page =
     Threw SecurityError (blocked_page\<lparr>html_classes := {''theme-light''}\<rparr>) \<and>
   blocked_page\<lparr>html_classes := {''theme-light''}\<rparr> \<noteq> blocked_page \<and>
   loadTheme blocked_page = Threw SecurityError blocked_page"
proof -
  have "html_classes (blocked_page\<lparr>html_classes := {''theme-light''}\<rparr>) \<noteq> html_classes blocked_page"
    by (simp add: blocked_page_def)
  then have "blocked_page\<lparr>html_classes := {''theme-light''}\<rparr> \<noteq> blocked_page"
    by metis
  then show ?thesis
    by (simp add: blocked_page_def loadTheme_def setLightTheme_def getItem_def setItem_def
        and_then_def Let_def)
qed

lemma setLightTheme_stores:
  assumes "localStorage s = Some m"
  shows "\<exists>s1. setLightTheme s = Done s1 \<and>
           html_classes s1 = insert ''theme-light'' (html_classes s - {''theme-dark''}) \<and>
           localStorage s1 = Some (m(''theme'' \<mapsto> ''theme-light''))"
  using assms
  by (simp add: setLightTheme_def setItem_def and_then_def updateActiveButton_def getItem_def
      Let_def truthy_def)

lemma setDarkTheme_stores:
  assumes "localStorage s = Some m"
  shows "\<exists>s1. setDarkTheme s = Done s1 \<and>
           html_classes s1 = insert ''theme-dark'' (html_classes s - {''theme-light''}) \<and>
           localStorage s1 = Some (m(''theme'' \<mapsto> ''theme-dark''))"
  using assms
  by (simp add: setDarkTheme_def setItem_def and_then_def updateActiveButton_def getItem_def
      Let_def truthy_def)

lemma setAutoTheme_stores:
  assumes "localStorage s = Some m"
  shows "\<exists>s1. setAutoTheme s = Done s1 \<and>
           html_classes s1 = html_classes s - {''theme-light'', ''theme-dark''} \<and>
           localStorage s1 = Some (m(''theme'' \<mapsto> ''auto''))"
  using assms
  by (simp add: setAutoTheme_def setItem_def and_then_def updateActiveButton_def getItem_def
      Let_def truthy_def)

lemma stored_again: "m k = Some v \<Longrightarrow> m(k \<mapsto> v) = m"
  by (rule ext) simp

lemma loadTheme_applies_light:
  assumes "localStorage s2 = Some m" and "m ''theme'' = Some ''theme-light''"
  shows "\<exists>s3. loadTheme s2 = Done s3 \<and>
           html_classes s3 = insert ''theme-light'' (html_classes s2 - {''theme-dark''}) \<and>
           localStorage s3 = Some m"
proof -
  have "loadTheme s2 = setLightTheme s2"
    using assms by (simp add: loadTheme_def getItem_def)
  with setLightTheme_stores [OF assms(1)] stored_again [of m "''theme''", OF assms(2)] show ?thesis
    by simp
qed

lemma loadTheme_applies_dark:
  assumes "localStorage s2 = Some m" and "m ''theme'' = Some ''theme-dark''"
  shows "\<exists>s3. loadTheme s2 = Done s3 \<and>
           html_classes s3 = insert ''theme-dark'' (html_classes s2 - {''theme-light''}) \<and>
           localStorage s3 = Some m"
proof -
  have "loadTheme s2 = setDarkTheme s2"
    using assms by (simp add: loadTheme_def getItem_def)
  with setDarkTheme_stores [OF assms(1)] stored_again [of m "''theme''", OF assms(2)] show ?thesis
    by simp
qed

lemma loadTheme_applies_auto:
  assumes "localStorage s2 = Some m" and "m ''theme'' = Some ''auto''"
  shows "\<exists>s3. loadTheme s2 = Done s3 \<and>
           html_classes s3 = html_classes s2 - {''theme-light'', ''theme-dark''} \<and>
           localStorage s3 = Some m"
proof -
  have "loadTheme s2 = setAutoTheme s2"
    using assms by (simp add: loadTheme_def getItem_def)
  with setAutoTheme_stores [OF assms(1)] stored_again [of m "''theme''", OF assms(2)] show ?thesis
    by simp
qed

lemma set_then_load_light:
  assumes "localStorage s = Some m"
  shows "\<exists>s1. setLightTheme s = Done s1 \<and> loadTheme s1 = Done s1 \<and>
           ''theme-light'' \<in> html_classes s1 \<and> ''theme-dark'' \<notin> html_classes s1"
  using assms
  by (cases "lightBtn s"; cases "darkBtn s"; cases "autoBtn s")
     (auto simp: setLightTheme_def loadTheme_def setItem_def and_then_def updateActiveButton_def
      getItem_def Let_def truthy_def opt_add_def opt_remove_def)

lemma set_then_load_dark:
  assumes "localStorage s = Some m"
  shows "\<exists>s1. setDarkTheme s = Done s1 \<and> loadTheme s1 = Done s1 \<and>
           ''theme-dark'' \<in> html_classes s1 \<and> ''theme-light'' \<notin> html_classes s1"
  using assms
  by (cases "lightBtn s"; cases "darkBtn s"; cases "autoBtn s")
     (auto simp: setDarkTheme_def loadTheme_def setItem_def and_then_def updateActiveButton_def
      getItem_def Let_def truthy_def opt_add_def opt_remove_def)

lemma set_then_load_auto:
  assumes "localStorage s = Some m"
  shows "\<exists>s1. setAutoTheme s = Done s1 \<and> loadTheme s1 = Done s1 \<and>
           ''theme-light'' \<notin> html_classes s1 \<and> ''theme-dark'' \<notin> html_classes s1"
  using assms
  by (cases "lightBtn s"; cases "darkBtn s"; cases "autoBtn s")
     (auto simp: setAutoTheme_def loadTheme_def setItem_def and_then_def updateActiveButton_def
      getItem_def Let_def truthy_def opt_add_def opt_remove_def)

lemma set_light_then_reload:
  assumes "localStorage s = Some m"
  shows "\<exists>s1. setLightTheme s = Done s1 \<and> loadTheme s1 = Done s1 \<and>
           ''theme-light'' \<in> html_classes s1 \<and> ''theme-dark'' \<notin> html_classes s1 \<and>
           (\<forall>s2. localStorage s2 = localStorage s1 \<longrightarrow>
              (\<exists>s3. loadTheme s2 = Done s3 \<and> localStorage s3 = localStorage s1 \<and>
                 html_classes s3 = insert ''theme-light'' (html_classes s2 - {''theme-dark''})))"
proof -
  from set_then_load_light [OF assms] obtain s1 where
    s1: "setLightTheme s = Done s1" "loadTheme s1 = Done s1"
      "''theme-light'' \<in> html_classes s1" "''theme-dark'' \<notin> html_classes s1"
    by blast
  with setLightTheme_stores [OF assms]
  have st: "localStorage s1 = Some (m(''theme'' \<mapsto> ''theme-light''))"
    by auto
  have "\<exists>s3. loadTheme s2 = Done s3 \<and> localStorage s3 = localStorage s1 \<and>
      html_classes s3 = insert ''theme-light'' (html_classes s2 - {''theme-dark''})"
    if "localStorage s2 = localStorage s1" for s2
    using loadTheme_applies_light [of s2 "m(''theme'' \<mapsto> ''theme-light'')"] that st
    by auto
  with s1 show ?thesis by blast
qed

lemma set_dark_then_reload:
  assumes "localStorage s = Some m"
  shows "\<exists>s1. setDarkTheme s = Done s1 \<and> loadTheme s1 = Done s1 \<and>
           ''theme-dark'' \<in> html_classes s1 \<and> ''theme-light'' \<notin> html_classes s1 \<and>
           (\<forall>s2. localStorage s2 = localStorage s1 \<longrightarrow>
              (\<exists>s3. loadTheme s2 = Done s3 \<and> localStorage s3 = localStorage s1 \<and>
                 html_classes s3 = insert ''theme-dark'' (html_classes s2 - {''theme-light''})))"
proof -
  from set_then_load_dark [OF assms] obtain s1 where
    s1: "setDarkTheme s = Done s1" "loadTheme s1 = Done s1"
      "''theme-dark'' \<in> html_classes s1" "''theme-light'' \<notin> html_classes s1"
    by blast
  with setDarkTheme_stores [OF assms]
  have st: "localStorage s1 = Some (m(''theme'' \<mapsto> ''theme-dark''))"
    by auto
  have "\<exists>s3. loadTheme s2 = Done s3 \<and> localStorage s3 = localStorage s1 \<and>
      html_classes s3 = insert ''theme-dark'' (html_classes s2 - {''theme-light''})"
    if "localStorage s2 = localStorage s1" for s2
    using loadTheme_applies_dark [of s2 "m(''theme'' \<mapsto> ''theme-dark'')"] that st
    by auto
  with s1 show ?thesis by blast
qed

lemma set_auto_then_reload:
  assumes "localStorage s = Some m"
  shows "\<exists>s1. setAutoTheme s = Done s1 \<and> loadTheme s1 = Done s1 \<and>
           ''theme-light'' \<notin> html_classes s1 \<and> ''theme-dark'' \<notin> html_classes s1 \<and>
           (\<forall>s2. localStorage s2 = localStorage s1 \<longrightarrow>
              (\<exists>s3. loadTheme s2 = Done s3 \<and> localStorage s3 = localStorage s1 \<and>
                 html_classes s3 = html_classes s2 - {''theme-light'', ''theme-dark''}))"
proof -
  from set_then_load_auto [OF assms] obtain s1 where
    s1: "setAutoTheme s = Done s1" "loadTheme s1 = Done s1"
      "''theme-light'' \<notin> html_classes s1" "''theme-dark'' \<notin> html_classes s1"
    by blast
  with setAutoTheme_stores [OF assms]
  have st: "localStorage s1 = Some (m(''theme'' \<mapsto> ''auto''))"
    by auto
  have "\<exists>s3. loadTheme s2 = Done s3 \<and> localStorage s3 = localStorage s1 \<and>
      html_classes s3 = html_classes s2 - {''theme-light'', ''theme-dark''}"
    if "localStorage s2 = localStorage s1" for s2
    using loadTheme_applies_auto [of s2 "m(''theme'' \<mapsto> ''auto'')"] that st
    by auto
  with s1 show ?thesis by blast
qed

text \<open>
  Claim C5. With storage available, each setter followed by \<^verbatim>\<open>loadTheme\<close> re-applies exactly
  the state the setter left: \<^verbatim>\<open>loadTheme\<close> returns that very state, which after
  \<^verbatim>\<open>setLightTheme\<close> has \<^verbatim>\<open>theme-light\<close> and not \<^verbatim>\<open>theme-dark\<close>, after \<^verbatim>\<open>setDarkTheme\<close> the
  reverse, after \<^verbatim>\<open>setAutoTheme\<close> neither class. And \<^verbatim>\<open>loadTheme\<close> does so from the stored
  preference alone: on any page state that has the storage the setter left, whatever its
  root classes and buttons (a reloaded page), it puts the class of the setter on the root
  and removes the other one, or removes both after \<^verbatim>\<open>setAutoTheme\<close>, and leaves the storage
  as it is.
\<close>

theorem set_then_load_reapplies:
  assumes "localStorage s \<noteq> None"
  shows "(\<exists>s1. setLightTheme s = Done s1 \<and> loadTheme s1 = Done s1 \<and>
            ''theme-light'' \<in> html_classes s1 \<and> ''theme-dark'' \<notin> html_classes s1 \<and>
            (\<forall>s2. localStorage s2 = localStorage s1 \<longrightarrow>
               (\<exists>s3. loadTheme s2 = Done s3 \<and> localStorage s3 = localStorage s1 \<and>
                  html_classes s3 = insert ''theme-light'' (html_classes s2 - {''theme-dark''})))) \<and>
         (\<exists>s1. setDarkTheme s = Done s1 \<and> loadTheme s1 = Done s1 \<and>
            ''theme-dark'' \<in> html_classes s1 \<and> ''theme-light'' \<notin> html_classes s1 \<and>
            (\<forall>s2. localStorage s2 = localStorage s1 \<longrightarrow>
               (\<exists>s3. loadTheme s2 = Done s3 \<and> localStorage s3 = localStorage s1 \<and>
                  html_classes s3 = insert ''theme-dark'' (html_classes s2 - {''theme-light''})))) \<and>
         (\<exists>s1. setAutoTheme s = Done s1 \<and> loadTheme s1 = Done s1 \<and>
            ''theme-light'' \<notin> html_classes s1 \<and> ''theme-dark'' \<notin> html_classes s1 \<and>
            (\<forall>s2. localStorage s2 = localStorage s1 \<longrightarrow>
               (\<exists>s3. loadTheme s2 = Done s3 \<and> localStorage s3 = localStorage s1 \<and>
                  html_classes s3 = html_classes s2 - {''theme-light'', ''theme-dark''})))"
proof -
  from assms obtain m where m: "localStorage s = Some m"
    by auto
  from set_light_then_reload [OF m] set_dark_then_reload [OF m] set_auto_then_reload [OF m]
  show ?thesis by blast
qed

theorem set_then_load_reapplies_witness:
  "localStorage example_page \<noteq> None \<and>
   (\<exists>s1 s3. setLightTheme example_page = Done s1 \<and> loadTheme s1 = Done s1 \<and>
      ''theme-light'' \<in> html_classes s1 \<and> ''theme-dark'' \<notin> html_classes s1 \<and>
      localStorage reloaded_dark_page = localStorage s1 \<and>
      ''theme-dark'' \<in> html_classes reloaded_dark_page \<and>
      loadTheme reloaded_dark_page = Done s3 \<and>
      ''theme-light'' \<in> html_classes s3 \<and> ''theme-dark'' \<notin> html_classes s3)"
proof -
  have avail: "localStorage example_page \<noteq> None"
    by (simp add: example_page_def)
  from set_then_load_reapplies [OF avail]
  have "\<exists>s1. setLightTheme example_page = Done s1 \<and> loadTheme s1 = Done s1 \<and>
      ''theme-light'' \<in> html_classes s1 \<and> ''theme-dark'' \<notin> html_classes s1 \<and>
      (\<forall>s2. localStorage s2 = localStorage s1 \<longrightarrow>
         (\<exists>s3. loadTheme s2 = Done s3 \<and> localStorage s3 = localStorage s1 \<and>
            html_classes s3 = insert ''theme-light'' (html_classes s2 - {''theme-dark''})))"
    by (rule conjunct1)
  then obtain s1 where
    s1: "setLightTheme example_page = Done s1" "loadTheme s1 = Done s1"
      "''theme-light'' \<in> html_classes s1" "''theme-dark'' \<notin> html_classes s1"
    and reload: "\<forall>s2. localStorage s2 = localStorage s1 \<longrightarrow>
      (\<exists>s3. loadTheme s2 = Done s3 \<and> localStorage s3 = localStorage s1 \<and>
         html_classes s3 = insert ''theme-light'' (html_classes s2 - {''theme-dark''}))"
    by blast
  have "localStorage (state_of (setLightTheme example_page)) = localStorage reloaded_dark_page"
    by (simp add: example_page_def reloaded_dark_page_def theme_eval)
  with s1(1) have same: "localStorage reloaded_dark_page = localStorage s1"
    by (simp add: state_of_def)
  with reload obtain s3 where
    s3: "loadTheme reloaded_dark_page = Done s3"
      "html_classes s3 = insert ''theme-light'' (html_classes reloaded_dark_page - {''theme-dark''})"
    by blast
  have dark: "''theme-dark'' \<in> html_classes reloaded_dark_page"
    by (simp add: reloaded_dark_page_def)
  from s3(2) have "''theme-light'' \<in> html_classes s3" "''theme-dark'' \<notin> html_classes s3"
    by auto
  with avail s1 same dark s3(1) show ?thesis by blast
qed















section \<open>Properties of MobileMenu\<close>

lemma MobileMenu_close_closed: "menu_closed (MobileMenu_close s)"
  by (simp add: menu_closed_def MobileMenu_close_def)

lemma escape_fold_closed:
  "menu_closed s \<Longrightarrow> fold (keydown_listener ''Escape'') nodes s = s"
proof (induction nodes)
  case Nil
  then show ?case by simp
next
  case (Cons n nodes)
  then have "keydown_listener ''Escape'' n s = s"
    by (cases n) (simp_all add: navBtn_keydown_def document_keydown_def menu_closed_def)
  with Cons show ?case by simp
qed

lemma escape_closes:
  assumes "''show-mobile-nav'' \<in> root_classes s" and "Document \<in> set nodes"
  shows "menu_closed (fold (keydown_listener ''Escape'') nodes s)"
  using assms
proof (induction nodes)
  case Nil
  then show ?case by simp
next
  case (Cons n nodes)
  show ?case
  proof (cases n)
    case NavBtn
    with Cons show ?thesis by (simp add: navBtn_keydown_def)
  next
    case NavList
    with Cons show ?thesis by simp
  next
    case Document
    with Cons.prems(1) have "keydown_listener ''Escape'' n s = MobileMenu_close s"
      by (simp add: document_keydown_def)
    then show ?thesis
      by (simp add: escape_fold_closed MobileMenu_close_closed)
  qed
qed

lemma link_click_fold_closed:
  "menu_closed s \<Longrightarrow> NavBtn \<notin> set nodes \<Longrightarrow> fold (click_listener ''A'') nodes s = s"
proof (induction nodes)
  case Nil
  then show ?case by simp
next
  case (Cons n nodes)
  then have "click_listener ''A'' n s = s"
    by (cases n) (simp_all add: navList_click_def menu_closed_def)
  with Cons show ?case by simp
qed

lemma link_click_closes:
  assumes "''show-mobile-nav'' \<in> root_classes s" and "NavList \<in> set nodes"
    and "NavBtn \<notin> set nodes"
  shows "menu_closed (fold (click_listener ''A'') nodes s)"
  using assms
proof (induction nodes)
  case Nil
  then show ?case by simp
next
  case (Cons n nodes)
  show ?case
  proof (cases n)
    case NavBtn
    with Cons.prems show ?thesis by simp
  next
    case NavList
    with Cons.prems(1) have "click_listener ''A'' n s = MobileMenu_close s"
      by (simp add: navList_click_def)
    with Cons.prems(3) show ?thesis
      by (simp add: link_click_fold_closed MobileMenu_close_closed)
  next
    case Document
    with Cons show ?thesis by simp
  qed
qed

lemma outside_click_ignored:
  "outside_navigation nodes \<Longrightarrow> fold (click_listener tag) nodes s = s"
proof (induction nodes)
  case Nil
  then show ?case by simp
next
  case (Cons n nodes)
  then show ?case
    by (cases n) (simp_all add: outside_navigation_def)
qed

text \<open>
  Claim C2, as the code has it. When the mobile menu is open, a click on a link in the
  navigation list closes it, and so does the Escape key: the visibility class is removed
  and \<^verbatim>\<open>aria-expanded\<close> becomes \<^verbatim>\<open>false\<close>. A click outside the navigation is not handled by
  MobileMenu at all and leaves the menu as it is.
\<close>

theorem menu_closing_events:
  assumes "''show-mobile-nav'' \<in> root_classes s"
  shows "(NavList \<in> set nodes \<and> NavBtn \<notin> set nodes
            \<longrightarrow> menu_closed (dispatch_click ''A'' nodes s)) \<and>
         (Document \<in> set nodes \<longrightarrow> menu_closed (dispatch_keydown ''Escape'' nodes s)) \<and>
         (outside_navigation nodes \<longrightarrow> dispatch_click tag nodes s = s)"
  using assms link_click_closes escape_closes outside_click_ignored
  unfolding dispatch_click_def dispatch_keydown_def by blast

lemmas menu_eval =
  dispatch_click_def dispatch_keydown_def navBtn_click_def navBtn_keydown_def navList_click_def
  document_keydown_def MobileMenu_toggle_def MobileMenu_open_def MobileMenu_close_def
  classList_toggle_def bool_string_def menu_closed_def outside_navigation_def aria_mirrors_def
  Let_def

theorem menu_closing_events_witness:
  "''show-mobile-nav'' \<in> root_classes open_menu_page \<and>
   menu_closed (dispatch_click ''A'' [NavList, Document] open_menu_page) \<and>
   menu_closed (dispatch_keydown ''Escape'' [Document] open_menu_page) \<and>
   outside_navigation [Document] \<and>
   dispatch_click ''DIV'' [Document] open_menu_page = open_menu_page"
  using menu_closing_events [of open_menu_page "[NavList, Document]" "''DIV''"]
    menu_closing_events [of open_menu_page "[Document]" "''DIV''"]
  by (simp add: open_menu_page_def outside_navigation_def)

text \<open>
  Claim C2 as stated fails: with the menu open, a click on a \<^verbatim>\<open>div\<close> outside the navigation
  (the event reaches the document only) leaves the visibility class on the root and
  \<^verbatim>\<open>aria-expanded\<close> at \<^verbatim>\<open>true\<close>.
\<close>

theorem outside_click_keeps_menu_open:
  "outside_navigation [Document] \<and>
   ''show-mobile-nav'' \<in> root_classes open_menu_page \<and>
   ''show-mobile-nav'' \<in> root_classes (dispatch_click ''DIV'' [Document] open_menu_page) \<and>
   aria_expanded (dispatch_click ''DIV'' [Document] open_menu_page) = Some ''true''"
  by (simp add: open_menu_page_def menu_eval)

lemma classList_toggle_twice: "classList_toggle c (classList_toggle c cs) = cs"
  by (auto simp: classList_toggle_def)

lemma toggle_twice_fields:
  "root_classes (MobileMenu_toggle (MobileMenu_toggle s)) = root_classes s"
  "navBtn_classes (MobileMenu_toggle (MobileMenu_toggle s)) = navBtn_classes s"
  "aria_expanded (MobileMenu_toggle (MobileMenu_toggle s)) =
     Some (bool_string (''show-mobile-nav'' \<in> root_classes s))"
  by (simp_all add: MobileMenu_toggle_def Let_def classList_toggle_twice)

lemma toggle_twice_mirrored:
  assumes "aria_mirrors s"
  shows "MobileMenu_toggle (MobileMenu_toggle s) = s"
proof -
  have "aria_expanded (MobileMenu_toggle (MobileMenu_toggle s)) = aria_expanded s"
    using assms by (simp add: toggle_twice_fields aria_mirrors_def)
  moreover have "menu_state.more (MobileMenu_toggle (MobileMenu_toggle s)) = menu_state.more s"
    by (simp add: MobileMenu_toggle_def Let_def)
  ultimately show ?thesis
    by (simp add: menu_state.equality toggle_twice_fields)
qed

lemma mirrors_after:
  "aria_mirrors (MobileMenu_toggle s)" "aria_mirrors (MobileMenu_open s)"
  "aria_mirrors (MobileMenu_close s)"
  by (simp_all add: aria_mirrors_def MobileMenu_toggle_def MobileMenu_open_def
      MobileMenu_close_def bool_string_def Let_def)

text \<open>
  Claim C9, as the code has it. From every starting state two toggles restore the
  visibility class of the root (and the \<^verbatim>\<open>active\<close> class of the button), and leave
  \<^verbatim>\<open>aria-expanded\<close> at the string for the original visibility. So \<^verbatim>\<open>aria-expanded\<close> is
  restored, and the whole state with it, whenever it mirrored the visibility class to begin
  with, as it does after any \<^verbatim>\<open>toggle\<close>, \<^verbatim>\<open>open\<close> or \<^verbatim>\<open>close\<close>.
\<close>

theorem toggle_twice_restores:
  "root_classes (MobileMenu_toggle (MobileMenu_toggle s)) = root_classes s \<and>
   navBtn_classes (MobileMenu_toggle (MobileMenu_toggle s)) = navBtn_classes s \<and>
   aria_expanded (MobileMenu_toggle (MobileMenu_toggle s)) =
     Some (bool_string (''show-mobile-nav'' \<in> root_classes s)) \<and>
   (aria_mirrors s \<longrightarrow> MobileMenu_toggle (MobileMenu_toggle s) = s) \<and>
   aria_mirrors (MobileMenu_toggle s) \<and> aria_mirrors (MobileMenu_open s) \<and>
   aria_mirrors (MobileMenu_close s)"
  using toggle_twice_fields [of s] toggle_twice_mirrored [of s] mirrors_after [of s]
  by blast

theorem toggle_twice_restores_witness:
  "aria_mirrors open_menu_page \<and>
   MobileMenu_toggle (MobileMenu_toggle open_menu_page) = open_menu_page \<and>
   aria_expanded (MobileMenu_toggle open_menu_page) = Some ''false''"
proof -
  have "aria_mirrors open_menu_page"
    by (simp add: open_menu_page_def aria_mirrors_def bool_string_def)
  moreover have "aria_expanded (MobileMenu_toggle open_menu_page) = Some ''false''"
    by (simp add: open_menu_page_def menu_eval)
  ultimately show ?thesis
    using toggle_twice_restores [of open_menu_page] by blast
qed

text \<open>
  Claim C9 as stated fails: on a page whose button has no \<^verbatim>\<open>aria-expanded\<close> attribute yet,
  two toggles leave the attribute at \<^verbatim>\<open>false\<close>, not absent.
\<close>

theorem toggle_twice_sets_aria:
  "aria_expanded fresh_menu_page = None \<and>
   aria_expanded (MobileMenu_toggle (MobileMenu_toggle fresh_menu_page)) = Some ''false'' \<and>
   aria_expanded (MobileMenu_toggle (MobileMenu_toggle fresh_menu_page)) \<noteq>
     aria_expanded fresh_menu_page"
  by (simp add: fresh_menu_page_def menu_eval)

section \<open>Properties of BackToTop\<close>

lemma getScrollTop_pageYOffset: "pageYOffset w \<noteq> 0 \<Longrightarrow> getScrollTop w = pageYOffset w"
  by (simp add: getScrollTop_def)

lemma BackToTop_init_checks:
  "BackToTop_init w (Some cs) = Some (checkVisibility w cs)" "BackToTop_init w None = None"
  by (simp_all add: BackToTop_init_def)

text \<open>
  Claim C8. Whatever the class list of the control was, after \<^verbatim>\<open>checkVisibility\<close> it has
  the class \<^verbatim>\<open>show\<close> if and only if the scroll offset read by \<^verbatim>\<open>getScrollTop\<close> is at least
  300; at exactly 300 the control shows.
\<close>

theorem checkVisibility_threshold:
  "(''show'' \<in> checkVisibility w btn \<longleftrightarrow> getScrollTop w \<ge> 300) \<and>
   (getScrollTop w = 300 \<longrightarrow> ''show'' \<in> checkVisibility w btn)"
  by (simp add: checkVisibility_def showThreshold_def)

theorem checkVisibility_threshold_witness:
  "getScrollTop \<lparr>pageYOffset = 300, documentElement_scrollTop = 300, body_scrollTop = 0\<rparr> = 300 \<and>
   ''show'' \<in> checkVisibility
      \<lparr>pageYOffset = 300, documentElement_scrollTop = 300, body_scrollTop = 0\<rparr> {''back-to-top-fixed''} \<and>
   ''show'' \<notin> checkVisibility
      \<lparr>pageYOffset = 299.5, documentElement_scrollTop = 299.5, body_scrollTop = 0\<rparr> {''back-to-top-fixed'', ''show''}"
  using checkVisibility_threshold
      [of "\<lparr>pageYOffset = 300, documentElement_scrollTop = 300, body_scrollTop = 0\<rparr>"
          "{''back-to-top-fixed''}"]
    checkVisibility_threshold
      [of "\<lparr>pageYOffset = 299.5, documentElement_scrollTop = 299.5, body_scrollTop = 0\<rparr>"
          "{''back-to-top-fixed'', ''show''}"]
  by (simp add: getScrollTop_def)

section \<open>Properties of SmoothScroll\<close>



lemma no_anchor_falls_through:
  "closest_hash_anchor nodes = None \<Longrightarrow> SmoothScroll_click page nodes s = Done s"
  by (simp add: SmoothScroll_click_def)













section \<open>Properties of LazyLoader\<close>

lemma fold_loadImage_elements: "elements (fold loadImage is s) = elements s"
  by (induction "is" arbitrary: s) (simp_all add: loadImage_def Let_def)

lemma fold_loadImage_callbacks:
  "frame_callbacks (fold loadImage is s) =
     frame_callbacks s @
     concat (map (\<lambda>i. if truthy (data_img (elements s ! i))
                       then [(i, the (data_img (elements s ! i)))] else []) is)"
proof (induction "is" arbitrary: s)
  case Nil
  then show ?case by simp
next
  case (Cons i "is")
  have e: "elements (loadImage i s) = elements s"
    by (simp add: loadImage_def Let_def)
  have f: "frame_callbacks (loadImage i s) =
      frame_callbacks s @
      (if truthy (data_img (elements s ! i)) then [(i, the (data_img (elements s ! i)))] else [])"
    by (simp add: loadImage_def Let_def)
  have "frame_callbacks (fold loadImage is (loadImage i s)) =
      frame_callbacks (loadImage i s) @
      concat (map (\<lambda>i. if truthy (data_img (elements s ! i))
                        then [(i, the (data_img (elements s ! i)))] else []) is)"
    using Cons [of "loadImage i s"] by (simp only: e)
  with f show ?case by simp
qed

lemma fold_callbacks_length: "length (fold (run_frame_callback p) q els) = length els"
  by (induction q arbitrary: els) auto

lemma fold_callbacks_other:
  "j \<notin> fst ` set q \<Longrightarrow> fold (run_frame_callback p) q els ! j = els ! j"
proof (induction q arbitrary: els)
  case Nil
  then show ?case by simp
next
  case (Cons c q)
  obtain i u where c: "c = (i, u)" by (cases c)
  with Cons.prems have "i \<noteq> j" "j \<notin> fst ` set q" by auto
  with Cons.IH [of "run_frame_callback p c els"] c show ?case by simp
qed

lemma fold_callbacks_target:
  assumes "distinct (map fst q)" and "(i, u) \<in> set q" and "i < length els"
  shows "fold (run_frame_callback p) q els ! i = mark_loaded p u (els ! i)"
  using assms
proof (induction q arbitrary: els)
  case Nil
  then show ?case by simp
next
  case (Cons c q)
  obtain j v where c: "c = (j, v)" by (cases c)
  show ?case
  proof (cases "c = (i, u)")
    case True
    with Cons.prems(1) have "i \<notin> fst ` set q" by auto
    then have "fold (run_frame_callback p) q (run_frame_callback p c els) ! i =
        run_frame_callback p c els ! i"
      by (rule fold_callbacks_other)
    with True Cons.prems(3) show ?thesis by simp
  next
    case False
    with Cons.prems(2) have mem: "(i, u) \<in> set q" by simp
    then have "i \<in> fst ` set q" by force
    with Cons.prems(1) c have neq: "j \<noteq> i" by auto
    have "i < length (run_frame_callback p c els)"
      using Cons.prems(3) c by simp
    with Cons.IH [of "run_frame_callback p c els"] Cons.prems(1) mem
    have "fold (run_frame_callback p) q (run_frame_callback p c els) ! i =
        mark_loaded p u (run_frame_callback p c els ! i)"
      by simp
    with neq c show ?thesis by simp
  qed
qed

lemma scheduled_distinct:
  "distinct is \<Longrightarrow> distinct (map fst (concat (map (\<lambda>i. if c i then [(i, u i)] else []) is)))"
proof (induction "is")
  case Nil
  then show ?case by simp
next
  case (Cons i "is")
  have "fst ` set (concat (map (\<lambda>i. if c i then [(i, u i)] else []) is)) \<subseteq> set is"
    by (auto split: if_splits)
  with Cons show ?case by auto
qed

lemma scheduled_set:
  "set (concat (map (\<lambda>i. if c i then [(i, u i)] else []) is)) = {(i, u i) | i. i \<in> set is \<and> c i}"
  by (auto split: if_splits)

lemma lazy_indices:
  "distinct (querySelectorAll_lazy els)"
  "set (querySelectorAll_lazy els) = {i. i < length els \<and> lazy_marker (els ! i)}"
  by (auto simp: querySelectorAll_lazy_def)

lemma fallback_elements:
  assumes "frame_callbacks s = []" and "i < length (elements s)"
  shows "elements (animation_frame (LazyLoader_init False s)) ! i =
     (if lazy_marker (elements s ! i) \<and> truthy (data_img (elements s ! i))
      then mark_loaded (parse_background s) (the (data_img (elements s ! i))) (elements s ! i)
      else elements s ! i)"
proof -
  let ?c = "\<lambda>i. truthy (data_img (elements s ! i))"
  let ?u = "\<lambda>i. the (data_img (elements s ! i))"
  let ?q = "concat (map (\<lambda>i. if ?c i then [(i, ?u i)] else []) (querySelectorAll_lazy (elements s)))"
  have parse: "parse_background (fold loadImage is s) = parse_background s" for "is"
    by (induction "is" arbitrary: s) (simp_all add: loadImage_def Let_def)
  have els: "elements (animation_frame (LazyLoader_init False s)) =
      fold (run_frame_callback (parse_background s)) ?q (elements s)"
    using assms(1)
    by (simp add: animation_frame_def LazyLoader_init_def loadAllImages_def
        fold_loadImage_elements fold_loadImage_callbacks parse)
  have dist: "distinct (map fst ?q)"
    by (rule scheduled_distinct) (rule lazy_indices)
  have setq: "set ?q = {(i, ?u i) | i. i < length (elements s) \<and> lazy_marker (elements s ! i) \<and> ?c i}"
    unfolding scheduled_set lazy_indices by blast
  show ?thesis
  proof (cases "lazy_marker (elements s ! i) \<and> ?c i")
    case True
    with assms(2) setq have "(i, ?u i) \<in> set ?q" by blast
    from fold_callbacks_target [OF dist this assms(2)] els True show ?thesis by simp
  next
    case False
    with setq have "i \<notin> fst ` set ?q" by force
    then have "fold (run_frame_callback (parse_background s)) ?q (elements s) ! i = elements s ! i"
      by (rule fold_callbacks_other)
    then show ?thesis
      unfolding els if_not_P [OF False] .
  qed
qed

lemma fallback_length:
  "length (elements (animation_frame (LazyLoader_init False s))) = length (elements s)"
  by (simp add: animation_frame_def LazyLoader_init_def loadAllImages_def
      fold_loadImage_elements fold_callbacks_length)

lemma fallback_schedules_only:
  "elements (LazyLoader_init False s) = elements s"
  by (simp add: LazyLoader_init_def loadAllImages_def fold_loadImage_elements)

lemma plain_not_broken: "plain_url u \<Longrightarrow> \<not> broken_url u"
  by (simp add: plain_url_def broken_url_def)

lemma mark_loaded_fields:
  "classList (mark_loaded p u e) = insert ''loaded'' (classList e)"
  "lazy_marker (mark_loaded p u e) = lazy_marker e"
  "data_img (mark_loaded p u e) = data_img e"
  "plain_url u \<Longrightarrow> backgroundImage (mark_loaded p u e) = Some (Url u)"
  "broken_url u \<Longrightarrow> backgroundImage (mark_loaded p u e) = backgroundImage e"
  using plain_not_broken [of u]
  by (auto simp: mark_loaded_def set_backgroundImage_def Let_def split: option.splits)

text \<open>
  Claim C3, as the code has it. Without \<^verbatim>\<open>IntersectionObserver\<close>, \<^verbatim>\<open>LazyLoader.init\<close> changes
  no element itself; it requests an animation frame for every tagged element that has a
  non-empty \<^verbatim>\<open>data-img\<close>. When that frame has run, each of these elements has the class
  \<^verbatim>\<open>loaded\<close> added, and has been assigned \<^verbatim>\<open>url(<data-img>)\<close> as background image: the
  element then has that image when its \<^verbatim>\<open>data-img\<close> is made of URL characters only, and
  keeps the background it had when the \<^verbatim>\<open>data-img\<close> has white space, a quote or an opening
  parenthesis between URL characters, because the browser drops such an assignment.
  Every other element, so also a tagged one with no or an empty \<^verbatim>\<open>data-img\<close>, is exactly as
  it was.
\<close>

theorem fallback_loads_images_with_url:
  assumes "frame_callbacks s = []" and "i < length (elements s)"
  shows "elements (LazyLoader_init False s) = elements s \<and>
         length (elements (animation_frame (LazyLoader_init False s))) = length (elements s) \<and>
         (lazy_marker (elements s ! i) \<and> truthy (data_img (elements s ! i)) \<longrightarrow>
            elements (animation_frame (LazyLoader_init False s)) ! i =
              mark_loaded (parse_background s) (the (data_img (elements s ! i))) (elements s ! i) \<and>
            classList (elements (animation_frame (LazyLoader_init False s)) ! i) =
              insert ''loaded'' (classList (elements s ! i)) \<and>
            (plain_url (the (data_img (elements s ! i))) \<longrightarrow>
               backgroundImage (elements (animation_frame (LazyLoader_init False s)) ! i) =
                 Some (Url (the (data_img (elements s ! i)))) \<and>
               is_loaded (elements (animation_frame (LazyLoader_init False s)) ! i)) \<and>
            (broken_url (the (data_img (elements s ! i))) \<longrightarrow>
               backgroundImage (elements (animation_frame (LazyLoader_init False s)) ! i) =
                 backgroundImage (elements s ! i))) \<and>
         (\<not> (lazy_marker (elements s ! i) \<and> truthy (data_img (elements s ! i))) \<longrightarrow>
            elements (animation_frame (LazyLoader_init False s)) ! i = elements s ! i)"
  using fallback_elements [OF assms] fallback_length [of s] fallback_schedules_only [of s]
  by (simp add: mark_loaded_fields is_loaded_def)

lemmas lazy_eval =
  gallery_page_def LazyLoader_init_def loadAllImages_def querySelectorAll_lazy_def loadImage_def
  animation_frame_def mark_loaded_def set_backgroundImage_def is_loaded_def truthy_def Let_def
  plain_url_def broken_url_def url_char_def url_breaker_def css_space_def name_char_def
  name_start_def digit_def

lemma upt_4: "[0..<4] = [0, 1, 2, 3]"
  by (simp add: upt_rec)

theorem fallback_loads_images_with_url_witness:
  "frame_callbacks gallery_page = [] \<and> (0::nat) < length (elements gallery_page) \<and>
   lazy_marker (elements gallery_page ! 0) \<and> truthy (data_img (elements gallery_page ! 0)) \<and>
   plain_url (the (data_img (elements gallery_page ! 0))) \<and>
   backgroundImage (elements (animation_frame (LazyLoader_init False gallery_page)) ! 0) =
     Some (Url ''/img/a.jpg'') \<and>
   ''loaded'' \<in> classList (elements (animation_frame (LazyLoader_init False gallery_page)) ! 0) \<and>
   \<not> truthy (data_img (elements gallery_page ! 1)) \<and>
   elements (animation_frame (LazyLoader_init False gallery_page)) ! 1 = elements gallery_page ! 1 \<and>
   broken_url (the (data_img (elements gallery_page ! 3))) \<and>
   backgroundImage (elements (animation_frame (LazyLoader_init False gallery_page)) ! 3) = None \<and>
   ''loaded'' \<in> classList (elements (animation_frame (LazyLoader_init False gallery_page)) ! 3)"
proof -
  have start: "frame_callbacks gallery_page = []" "length (elements gallery_page) = 4"
    by (simp_all add: gallery_page_def)
  have e0: "lazy_marker (elements gallery_page ! 0)" "truthy (data_img (elements gallery_page ! 0))"
    "plain_url (the (data_img (elements gallery_page ! 0)))"
    "the (data_img (elements gallery_page ! 0)) = ''/img/a.jpg''"
    by (simp_all add: gallery_page_def truthy_def plain_url_def url_char_def name_char_def
        name_start_def digit_def)
  have e1: "\<not> truthy (data_img (elements gallery_page ! 1))"
    by (simp add: gallery_page_def truthy_def)
  have e3: "lazy_marker (elements gallery_page ! 3)" "truthy (data_img (elements gallery_page ! 3))"
    "broken_url (the (data_img (elements gallery_page ! 3)))"
    "backgroundImage (elements gallery_page ! 3) = None"
    by (simp_all add: gallery_page_def truthy_def broken_url_def url_char_def url_breaker_def
        css_space_def name_char_def name_start_def digit_def)
  have lt: "0 < length (elements gallery_page)" "1 < length (elements gallery_page)"
    "3 < length (elements gallery_page)"
    by (simp_all add: start(2))
  from fallback_loads_images_with_url [OF start(1) lt(1)] e0(1-3)
  have "backgroundImage (elements (animation_frame (LazyLoader_init False gallery_page)) ! 0) =
        Some (Url (the (data_img (elements gallery_page ! 0)))) \<and>
      classList (elements (animation_frame (LazyLoader_init False gallery_page)) ! 0) =
        insert ''loaded'' (classList (elements gallery_page ! 0))"
    by blast
  then have r0:
    "backgroundImage (elements (animation_frame (LazyLoader_init False gallery_page)) ! 0) =
        Some (Url ''/img/a.jpg'') \<and>
      ''loaded'' \<in> classList (elements (animation_frame (LazyLoader_init False gallery_page)) ! 0)"
    by (simp add: e0(4))
  from fallback_loads_images_with_url [OF start(1) lt(2)] e1
  have r1: "elements (animation_frame (LazyLoader_init False gallery_page)) ! 1 =
      elements gallery_page ! 1"
    by blast
  from fallback_loads_images_with_url [OF start(1) lt(3)] e3(1-3)
  have "backgroundImage (elements (animation_frame (LazyLoader_init False gallery_page)) ! 3) =
        backgroundImage (elements gallery_page ! 3) \<and>
      classList (elements (animation_frame (LazyLoader_init False gallery_page)) ! 3) =
        insert ''loaded'' (classList (elements gallery_page ! 3))"
    by blast
  then have r3:
    "backgroundImage (elements (animation_frame (LazyLoader_init False gallery_page)) ! 3) =
        None \<and>
      ''loaded'' \<in> classList (elements (animation_frame (LazyLoader_init False gallery_page)) ! 3)"
    by (simp add: e3(4))
  from start(1) lt(1) e0(1-3) e1 e3(3) r0 r1 r3 show ?thesis
    by blast
qed

text \<open>
  Claim C3 as stated fails: the second element of the example page is tagged but has no
  \<^verbatim>\<open>data-img\<close>; after \<^verbatim>\<open>init\<close> without \<^verbatim>\<open>IntersectionObserver\<close> and the animation frame it has
  neither a background image nor the class \<^verbatim>\<open>loaded\<close>. The fourth is tagged and has the
  \<^verbatim>\<open>data-img\<close> \<^verbatim>\<open>my photo.jpg\<close>; it gets the class \<^verbatim>\<open>loaded\<close> and no background image. Right
  after \<^verbatim>\<open>init\<close>, before the frame, not even the first element is loaded.
\<close>

theorem tagged_element_left_unloaded:
  "lazy_marker (elements gallery_page ! 1) \<and>
   backgroundImage (elements (animation_frame (LazyLoader_init False gallery_page)) ! 1) = None \<and>
   ''loaded'' \<notin> classList (elements (animation_frame (LazyLoader_init False gallery_page)) ! 1) \<and>
   lazy_marker (elements gallery_page ! 3) \<and>
   backgroundImage (elements (animation_frame (LazyLoader_init False gallery_page)) ! 3) = None \<and>
   \<not> is_loaded (elements (LazyLoader_init False gallery_page) ! 0)"
  by (simp add: lazy_eval upt_4)


section \<open>Properties of CodeCopy\<close>

lemma copy_click_rejected:
  "copy_click (Rejected err) b =
     Done (b\<lparr>console_errors := console_errors b @ [err], textContent := ''Failed'',
             timers := timers b @ [(clock b + 2000, RevertFailed)]\<rparr>)"
  by (simp add: copy_click_def try_catch_def and_then_def writeText_def setTimeout_def Let_def)

lemma copy_click_fulfilled:
  "copy_click Fulfilled b =
     Done (b\<lparr>textContent := ''Copied!'', button_classes := insert ''copied'' (button_classes b),
             timers := timers b @ [(clock b + 2000, RevertCopied)]\<rparr>)"
  by (simp add: copy_click_def try_catch_def and_then_def writeText_def setTimeout_def Let_def)

lemma run_timer_label: "textContent (run_timer tm b) = ''Copy''"
proof -
  obtain due cb where "tm = (due, cb)" by (cases tm)
  then show ?thesis by (cases cb) simp_all
qed

lemma fold_run_timer_label:
  "tms \<noteq> [] \<Longrightarrow> textContent (fold run_timer tms b) = ''Copy''"
proof (induction tms rule: rev_induct)
  case Nil
  then show ?case by simp
next
  case (snoc tm tms)
  show ?case by (simp add: run_timer_label)
qed

lemma advance_fires: 
  assumes "\<exists>tm \<in> set (timers b). fst tm \<le> t"
  shows "textContent (advance_to t b) = ''Copy''"
proof -
  from assms have "filter (\<lambda>tm. fst tm \<le> t) (timers b) \<noteq> []"
    by (simp add: filter_empty_conv)
  then show ?thesis
    unfolding advance_to_def by (rule fold_run_timer_label)
qed

lemma advance_idle:
  assumes "\<forall>tm \<in> set (timers b). t < fst tm"
  shows "textContent (advance_to t b) = textContent b"
proof -
  from assms have "filter (\<lambda>tm. fst tm \<le> t) (timers b) = []"
    by (auto simp: filter_empty_conv)
  then show ?thesis
    by (simp add: advance_to_def)
qed

lemma fold_run_timer_timers: "timers (fold run_timer tms b) = timers b"
proof (induction tms arbitrary: b)
  case Nil
  then show ?case by simp
next
  case (Cons tm tms)
  obtain due cb where "tm = (due, cb)" by (cases tm)
  then have "timers (run_timer tm b) = timers b" by (cases cb) simp_all
  with Cons [of "run_timer tm b"] show ?case by simp
qed

lemma advance_timers:
  "timers (advance_to t b) = filter (\<lambda>tm. \<not> fst tm \<le> t) (timers b)"
  by (simp add: advance_to_def fold_run_timer_timers)

lemma advance_label_kept:
  assumes "textContent b = ''Copy''"
  shows "textContent (advance_to t b) = ''Copy''"
proof (cases "\<exists>tm \<in> set (timers b). fst tm \<le> t")
  case True
  then show ?thesis by (rule advance_fires)
next
  case False
  then have "\<forall>tm \<in> set (timers b). t < fst tm" by auto
  with advance_idle [of b t] assms show ?thesis by simp
qed

lemma ticks_keep_copy:
  "textContent b = ''Copy'' \<Longrightarrow> textContent (copy_run (map Tick ts) b) = ''Copy''"
  unfolding copy_run_def
  by (induction ts arbitrary: b) (simp_all add: advance_label_kept)

lemma early_ticks_idle:
  assumes "\<forall>t \<in> set ts. \<forall>tm \<in> set (timers b). t < fst tm"
  shows "textContent (copy_run (map Tick ts) b) = textContent b"
  using assms unfolding copy_run_def
proof (induction ts arbitrary: b)
  case Nil
  then show ?case by simp
next
  case (Cons t ts)
  then have now: "\<forall>tm \<in> set (timers b). t < fst tm"
    by simp
  then have "filter (\<lambda>tm. \<not> fst tm \<le> t) (timers b) = timers b"
    by (auto simp: filter_id_conv)
  then have same: "timers (advance_to t b) = timers b"
    by (simp add: advance_timers)
  with Cons.prems have "\<forall>t' \<in> set ts. \<forall>tm \<in> set (timers (advance_to t b)). t' < fst tm"
    by simp
  from Cons.IH [OF this] advance_idle [OF now] show ?case
    by simp
qed

lemma late_tick_reverts:
  assumes "tm0 \<in> set (timers b) \<or> textContent b = ''Copy''"
    and "\<exists>t \<in> set ts. fst tm0 \<le> t"
  shows "textContent (copy_run (map Tick ts) b) = ''Copy''"
  using assms
proof (induction ts arbitrary: b)
  case Nil
  then show ?case by simp
next
  case (Cons t ts)
  have run: "copy_run (map Tick (t # ts)) b = copy_run (map Tick ts) (advance_to t b)"
    by (simp add: copy_run_def)
  show ?case
  proof (cases "fst tm0 \<le> t")
    case True
    have "textContent (advance_to t b) = ''Copy''"
    proof (cases "tm0 \<in> set (timers b)")
      case True
      with \<open>fst tm0 \<le> t\<close> have "\<exists>tm \<in> set (timers b). fst tm \<le> t" by blast
      then show ?thesis by (rule advance_fires)
    next
      case False
      with Cons.prems(1) show ?thesis by (simp add: advance_label_kept)
    qed
    then show ?thesis
      unfolding run by (rule ticks_keep_copy)
  next
    case False
    with Cons.prems(2) have later: "\<exists>t \<in> set ts. fst tm0 \<le> t" by auto
    have "tm0 \<in> set (timers (advance_to t b)) \<or> textContent (advance_to t b) = ''Copy''"
      using Cons.prems(1) False by (auto simp: advance_timers advance_label_kept)
    from Cons.IH [OF this later] show ?thesis
      unfolding run .
  qed
qed

lemma pending_through_events:
  assumes "tm0 \<in> set (timers b)" and "\<forall>e \<in> set evs. before (fst tm0) e"
  shows "tm0 \<in> set (timers (copy_run evs b))"
  using assms unfolding copy_run_def
proof (induction evs arbitrary: b)
  case Nil
  then show ?case by simp
next
  case (Cons e evs)
  have "tm0 \<in> set (timers (copy_step e b))"
  proof (cases e)
    case (Tick t)
    with Cons.prems show ?thesis by (simp add: advance_timers)
  next
    case (Click w)
    with Cons.prems(1) show ?thesis
      by (cases w) (simp_all add: copy_click_rejected copy_click_fulfilled state_of_def)
  qed
  with Cons show ?case by simp
qed

lemma first_late_tick_reverts:
  assumes "tm0 \<in> set (timers b)" and "\<forall>e \<in> set evs. before (fst tm0) e" and "fst tm0 \<le> t"
  shows "textContent (copy_run (evs @ [Tick t]) b) = ''Copy''"
proof -
  from pending_through_events [OF assms(1,2)] assms(3)
  have "\<exists>tm \<in> set (timers (copy_run evs b)). fst tm \<le> t" by blast
  then have "textContent (advance_to t (copy_run evs b)) = ''Copy''"
    by (rule advance_fires)
  then show ?thesis by (simp add: copy_run_def)
qed

lemma click_sets_label:
  "textContent (state_of (copy_click w b)) =
     (case w of Fulfilled \<Rightarrow> ''Copied!'' | Rejected e \<Rightarrow> ''Failed'')"
  by (cases w) (simp_all add: copy_click_rejected copy_click_fulfilled state_of_def)

text \<open>
  Claim C7, as the code has it. When the clipboard write of a click rejects, the handler
  catches the failure and completes; the error is logged; the label becomes \<^verbatim>\<open>Failed\<close>; and
  one timer is added, due 2000 ms later. While the button is not clicked again, whatever
  the steps in which the clock advances: the label is still \<^verbatim>\<open>Failed\<close> as long as the clock
  stays below 2000 ms after the rejection, provided no revert timer of an earlier click on
  the same button falls due by then, and the label is \<^verbatim>\<open>Copy\<close> once the clock has reached
  2000 ms after the rejection. A further click replaces the label at once, by \<^verbatim>\<open>Copied!\<close>
  or \<^verbatim>\<open>Failed\<close>; and with or without further clicks, the first time the clock reaches
  2000 ms after the rejection the label is set to \<^verbatim>\<open>Copy\<close>.
\<close>

theorem rejected_copy_handled:
  "\<exists>b'. copy_click (Rejected err) b = Done b' \<and>
        console_errors b' = console_errors b @ [err] \<and>
        textContent b' = ''Failed'' \<and>
        timers b' = timers b @ [(clock b + 2000, RevertFailed)] \<and>
        (\<forall>ts. (\<forall>t \<in> set ts. t < clock b + 2000 \<and> (\<forall>tm \<in> set (timers b). t < fst tm))
               \<longrightarrow> textContent (copy_run (map Tick ts) b') = ''Failed'') \<and>
        (\<forall>ts. (\<exists>t \<in> set ts. clock b + 2000 \<le> t)
               \<longrightarrow> textContent (copy_run (map Tick ts) b') = ''Copy'') \<and>
        (\<forall>w. textContent (state_of (copy_click w b')) =
               (case w of Fulfilled \<Rightarrow> ''Copied!'' | Rejected e \<Rightarrow> ''Failed'')) \<and>
        (\<forall>evs t. (\<forall>e \<in> set evs. before (clock b + 2000) e) \<and> clock b + 2000 \<le> t
               \<longrightarrow> textContent (copy_run (evs @ [Tick t]) b') = ''Copy'')"
proof -
  let ?tm = "(clock b + 2000, RevertFailed)"
  let ?b = "b\<lparr>console_errors := console_errors b @ [err], textContent := ''Failed'',
             timers := timers b @ [?tm]\<rparr>"
  have pending: "?tm \<in> set (timers ?b)"
    by simp
  have early: "textContent (copy_run (map Tick ts) ?b) = ''Failed''"
    if "\<forall>t \<in> set ts. t < clock b + 2000 \<and> (\<forall>tm \<in> set (timers b). t < fst tm)" for ts
  proof -
    from that have "\<forall>t \<in> set ts. \<forall>tm \<in> set (timers ?b). t < fst tm" by auto
    then have "textContent (copy_run (map Tick ts) ?b) = textContent ?b"
      by (rule early_ticks_idle)
    then show ?thesis by simp
  qed
  have late: "textContent (copy_run (map Tick ts) ?b) = ''Copy''"
    if "\<exists>t \<in> set ts. clock b + 2000 \<le> t" for ts
  proof -
    from pending have "?tm \<in> set (timers ?b) \<or> textContent ?b = ''Copy''" ..
    moreover from that have "\<exists>t \<in> set ts. fst ?tm \<le> t" by simp
    ultimately show ?thesis by (rule late_tick_reverts)
  qed
  have first_late: "textContent (copy_run (evs @ [Tick t]) ?b) = ''Copy''"
    if "(\<forall>e \<in> set evs. before (clock b + 2000) e) \<and> clock b + 2000 \<le> t" for evs t
  proof -
    from that have "\<forall>e \<in> set evs. before (fst ?tm) e" "fst ?tm \<le> t" by simp_all
    with pending show ?thesis by (rule first_late_tick_reverts)
  qed
  have "copy_click (Rejected err) b = Done ?b"
    by (rule copy_click_rejected)
  moreover have "console_errors ?b = console_errors b @ [err]" "textContent ?b = ''Failed''"
    "timers ?b = timers b @ [?tm]"
    by simp_all
  ultimately show ?thesis
    using early late first_late click_sets_label [of _ ?b] by blast
qed

lemmas copy_eval =
  rejected_once_def rejected_twice_def new_copy_button_def copy_click_rejected
  copy_click_fulfilled state_of_def advance_to_def copy_run_def

theorem rejected_copy_handled_witness:
  "timers (new_copy_button 0) = [] \<and>
   copy_click (Rejected NotAllowedError) (new_copy_button 0) = Done rejected_once \<and>
   console_errors rejected_once = [NotAllowedError] \<and>
   textContent (copy_run (map Tick [500, 1999]) rejected_once) = ''Failed'' \<and>
   textContent (copy_run (map Tick [500, 2000, 2600]) rejected_once) = ''Copy'' \<and>
   textContent (state_of (copy_click Fulfilled rejected_once)) = ''Copied!'' \<and>
   before 2000 (Tick 1500) \<and> before 2000 (Click Fulfilled) \<and>
   textContent (copy_run ([Tick 1500, Click Fulfilled] @ [Tick 2000]) rejected_once) = ''Copy''"
proof -
  have click: "copy_click (Rejected NotAllowedError) (new_copy_button 0) = Done rejected_once"
    by (simp add: copy_eval)
  have start: "timers (new_copy_button 0) = []" "clock (new_copy_button 0) = 0"
    "console_errors (new_copy_button 0) = []"
    by (simp_all add: new_copy_button_def)
  from rejected_copy_handled [of NotAllowedError "new_copy_button 0"] click start
  have all: "console_errors rejected_once = [NotAllowedError] \<and>
      (\<forall>ts. (\<forall>t \<in> set ts. t < 2000) \<longrightarrow>
         textContent (copy_run (map Tick ts) rejected_once) = ''Failed'') \<and>
      (\<forall>ts. (\<exists>t \<in> set ts. 2000 \<le> t) \<longrightarrow>
         textContent (copy_run (map Tick ts) rejected_once) = ''Copy'') \<and>
      (\<forall>w. textContent (state_of (copy_click w rejected_once)) =
         (case w of Fulfilled \<Rightarrow> ''Copied!'' | Rejected e \<Rightarrow> ''Failed'')) \<and>
      (\<forall>evs t. (\<forall>e \<in> set evs. before 2000 e) \<and> 2000 \<le> t \<longrightarrow>
         textContent (copy_run (evs @ [Tick t]) rejected_once) = ''Copy'')"
    by auto
  then have early: "\<And>ts. \<forall>t \<in> set ts. t < 2000 \<Longrightarrow>
        textContent (copy_run (map Tick ts) rejected_once) = ''Failed''"
    and late: "\<And>ts. \<exists>t \<in> set ts. 2000 \<le> t \<Longrightarrow>
        textContent (copy_run (map Tick ts) rejected_once) = ''Copy''"
    and again: "\<And>w. textContent (state_of (copy_click w rejected_once)) =
        (case w of Fulfilled \<Rightarrow> ''Copied!'' | Rejected e \<Rightarrow> ''Failed'')"
    and first_late: "\<And>evs t. (\<forall>e \<in> set evs. before 2000 e) \<and> 2000 \<le> t \<Longrightarrow>
        textContent (copy_run (evs @ [Tick t]) rejected_once) = ''Copy''"
    by blast+
  have "textContent (copy_run (map Tick [500, 1999]) rejected_once) = ''Failed''"
    by (rule early) simp
  moreover
  have "textContent (copy_run (map Tick [500, 2000, 2600]) rejected_once) = ''Copy''"
    by (rule late) simp
  moreover
  have "textContent (state_of (copy_click Fulfilled rejected_once)) = ''Copied!''"
    using again [of Fulfilled] by simp
  moreover
  have "textContent (copy_run ([Tick 1500, Click Fulfilled] @ [Tick 2000]) rejected_once) = ''Copy''"
    by (rule first_late) simp
  ultimately show ?thesis
    using click start all by simp
qed

text \<open>
  Claim C7 as stated fails: a write is rejected at time 0 and, on a second click, again at
  time 1500. The label is \<^verbatim>\<open>Failed\<close> after the second rejection, and at time 2000, only
  500 ms later, the timer of the first click has set it back to \<^verbatim>\<open>Copy\<close>.
\<close>

theorem second_failure_reverts_early:
  "clock (advance_to 1500 rejected_once) = 1500 \<and>
   copy_click (Rejected NotAllowedError) (advance_to 1500 rejected_once) = Done rejected_twice \<and>
   textContent rejected_twice = ''Failed'' \<and>
   textContent (advance_to 2000 rejected_twice) = ''Copy''"
  by (simp add: copy_eval)

end
